theory Spec2Isabelle
  imports Complex_Main "HOL-Library.Word" "HOL-Library.Sublist"
begin

section \<open>JavaScript strings\<close>

text \<open>
  A JavaScript string is a sequence of UTF-16 code units: \<open>value.length\<close> counts them,
  \<open>value.split("")\<close> cuts the string into them and \<open>===\<close> compares them one by one.
  Literals of the source are ASCII and are written \<open>js ''racecar''\<close>.
\<close>

type_synonym code_unit = "16 word"
type_synonym jsstring = "code_unit list"

definition js :: "string \<Rightarrow> jsstring" where
  "js s = map of_char s"

text \<open>
  \<open>String.prototype.trim\<close> and the regular expression class \<open>\\s\<close> use the same set:
  the WhiteSpace and LineTerminator code points of ECMAScript, all of one code unit.
\<close>

definition isWhiteSpace :: "code_unit \<Rightarrow> bool" where
  "isWhiteSpace c =
     (c = 0x0009 \<or> c = 0x000A \<or> c = 0x000B \<or> c = 0x000C \<or> c = 0x000D \<or> c = 0x0020
      \<or> c = 0x00A0 \<or> c = 0x1680 \<or> (0x2000 \<le> c \<and> c \<le> 0x200A) \<or> c = 0x2028
      \<or> c = 0x2029 \<or> c = 0x202F \<or> c = 0x205F \<or> c = 0x3000 \<or> c = 0xFEFF)"

definition trim :: "jsstring \<Rightarrow> jsstring" where
  "trim s = rev (dropWhile isWhiteSpace (rev (dropWhile isWhiteSpace s)))"

text \<open>
  \<open>s.split(/\\s+/)\<close>: the pieces of \<open>s\<close> between the maximal runs of white space. A run at
  the start or at the end leaves an empty piece there, and the empty string gives one
  empty piece.
\<close>

function split_ws :: "jsstring \<Rightarrow> jsstring list" where
  "split_ws [] = [[]]"
| "split_ws (c # cs) =
     (if isWhiteSpace c then [] # split_ws (dropWhile isWhiteSpace cs)
      else (case split_ws cs of
              [] \<Rightarrow> [[c]]
            | t # ts \<Rightarrow> (c # t) # ts))"
  by pat_completeness auto
termination
  by (relation "measure length") (auto simp: length_dropWhile_le less_Suc_eq_le)

text \<open>
  \<open>_.toLower\<close> of lodash is \<open>String.prototype.toLowerCase\<close>. The upper-case letters of
  Basic Latin (A to Z) and of the Latin-1 Supplement (U+00C0 to U+00DE without the
  multiplication sign U+00D7) move up by 0x20. The case tables of the runtime for code
  units above U+00FF are not part of the repository; such code units are left as they are.
\<close>

definition isUpper :: "code_unit \<Rightarrow> bool" where
  "isUpper c = ((0x41 \<le> c \<and> c \<le> 0x5A) \<or> (0xC0 \<le> c \<and> c \<le> 0xDE \<and> c \<noteq> 0xD7))"

definition lowerUnit :: "code_unit \<Rightarrow> code_unit" where
  "lowerUnit c = (if isUpper c then c + 0x20 else c)"

definition toLower :: "jsstring \<Rightarrow> jsstring" where
  "toLower s = map lowerUnit s"

text \<open>
  The string iterator, which \<open>new Set(value)\<close> runs: it yields code points. A high
  surrogate followed by a low surrogate is one element of two code units; every other
  code unit, a lone surrogate too, is an element of its own.
\<close>

definition isHighSurrogate :: "code_unit \<Rightarrow> bool" where
  "isHighSurrogate c = (0xD800 \<le> c \<and> c \<le> 0xDBFF)"

definition isLowSurrogate :: "code_unit \<Rightarrow> bool" where
  "isLowSurrogate c = (0xDC00 \<le> c \<and> c \<le> 0xDFFF)"

fun string_iterator :: "jsstring \<Rightarrow> jsstring list" where
  "string_iterator [] = []"
| "string_iterator [c] = [[c]]"
| "string_iterator (c # d # cs) =
     (if isHighSurrogate c \<and> isLowSurrogate d then [c, d] # string_iterator cs
      else [c] # string_iterator (d # cs))"

text \<open>\<open>s.includes(t)\<close>: \<open>t\<close> occurs in \<open>s\<close> as a run of adjacent code units.\<close>

fun js_includes :: "jsstring \<Rightarrow> jsstring \<Rightarrow> bool" where
  "js_includes [] t = (t = [])"
| "js_includes (c # cs) t = (prefix t (c # cs) \<or> js_includes cs t)"

section \<open>The derived properties (addString, lines 68 to 81)\<close>

text \<open>\<open>value === value.split("").reverse().join("")\<close>\<close>

definition is_palindrome_of :: "jsstring \<Rightarrow> bool" where
  "is_palindrome_of v = (v = rev v)"

text \<open>\<open>Array.from(new Set(value)).length\<close>\<close>

definition unique_characters_of :: "jsstring \<Rightarrow> nat" where
  "unique_characters_of v = length (remdups (string_iterator v))"

text \<open>\<open>value.trim() === "" ? 0 : value.trim().split(/\\s+/).length\<close>\<close>

definition word_count_of :: "jsstring \<Rightarrow> nat" where
  "word_count_of v = (if trim v = [] then 0 else length (split_ws (trim v)))"

text \<open>
  \<open>value.split("").reduce((acc, char) => { acc[char] = (acc[char] || 0) + 1; return acc }, {})\<close>:
  the keys of the object are strings of one code unit.
\<close>

definition bump :: "(code_unit \<rightharpoonup> nat) \<Rightarrow> code_unit \<Rightarrow> (code_unit \<rightharpoonup> nat)" where
  "bump acc c = acc(c \<mapsto> (case acc c of None \<Rightarrow> 0 | Some n \<Rightarrow> n) + 1)"

definition character_frequency_map_of :: "jsstring \<Rightarrow> (code_unit \<rightharpoonup> nat)" where
  "character_frequency_map_of v = foldl bump Map.empty v"

section \<open>SHA-256 and its hexadecimal digest\<close>

text \<open>
  \<open>crypto.createHash("sha256").update(value).digest("hex")\<close>: the string is hashed in its
  UTF-8 encoding (a surrogate that has no partner is encoded as U+FFFD), by SHA-256 of
  FIPS 180-4, and the 32 bytes are written as 64 lower-case hexadecimal digits.
\<close>

definition utf8_of_code_point :: "nat \<Rightarrow> 8 word list" where
  "utf8_of_code_point n =
     (if n < 0x80 then [of_nat n]
      else if n < 0x800 then [of_nat (0xC0 + n div 0x40), of_nat (0x80 + n mod 0x40)]
      else if n < 0x10000 then
        [of_nat (0xE0 + n div 0x1000), of_nat (0x80 + n div 0x40 mod 0x40), of_nat (0x80 + n mod 0x40)]
      else
        [of_nat (0xF0 + n div 0x40000), of_nat (0x80 + n div 0x1000 mod 0x40),
         of_nat (0x80 + n div 0x40 mod 0x40), of_nat (0x80 + n mod 0x40)])"

fun utf8 :: "jsstring \<Rightarrow> 8 word list" where
  "utf8 [] = []"
| "utf8 [c] =
     (if isHighSurrogate c \<or> isLowSurrogate c then utf8_of_code_point 0xFFFD
      else utf8_of_code_point (unat c))"
| "utf8 (c # d # cs) =
     (if isHighSurrogate c \<and> isLowSurrogate d
      then utf8_of_code_point (0x10000 + (unat c - 0xD800) * 0x400 + (unat d - 0xDC00)) @ utf8 cs
      else if isHighSurrogate c \<or> isLowSurrogate c then utf8_of_code_point 0xFFFD @ utf8 (d # cs)
      else utf8_of_code_point (unat c) @ utf8 (d # cs))"

definition sha256_K :: "32 word list" where
  "sha256_K =
    [0x428A2F98, 0x71374491, 0xB5C0FBCF, 0xE9B5DBA5, 0x3956C25B, 0x59F111F1,
     0x923F82A4, 0xAB1C5ED5, 0xD807AA98, 0x12835B01, 0x243185BE, 0x550C7DC3,
     0x72BE5D74, 0x80DEB1FE, 0x9BDC06A7, 0xC19BF174, 0xE49B69C1, 0xEFBE4786,
     0x0FC19DC6, 0x240CA1CC, 0x2DE92C6F, 0x4A7484AA, 0x5CB0A9DC, 0x76F988DA,
     0x983E5152, 0xA831C66D, 0xB00327C8, 0xBF597FC7, 0xC6E00BF3, 0xD5A79147,
     0x06CA6351, 0x14292967, 0x27B70A85, 0x2E1B2138, 0x4D2C6DFC, 0x53380D13,
     0x650A7354, 0x766A0ABB, 0x81C2C92E, 0x92722C85, 0xA2BFE8A1, 0xA81A664B,
     0xC24B8B70, 0xC76C51A3, 0xD192E819, 0xD6990624, 0xF40E3585, 0x106AA070,
     0x19A4C116, 0x1E376C08, 0x2748774C, 0x34B0BCB5, 0x391C0CB3, 0x4ED8AA4A,
     0x5B9CCA4F, 0x682E6FF3, 0x748F82EE, 0x78A5636F, 0x84C87814, 0x8CC70208,
     0x90BEFFFA, 0xA4506CEB, 0xBEF9A3F7, 0xC67178F2]"

definition rotr :: "nat \<Rightarrow> 32 word \<Rightarrow> 32 word" where
  "rotr n x = or (drop_bit n x) (push_bit (32 - n) x)"

definition Ch :: "32 word \<Rightarrow> 32 word \<Rightarrow> 32 word \<Rightarrow> 32 word" where
  "Ch x y z = xor (and x y) (and (not x) z)"

definition Maj :: "32 word \<Rightarrow> 32 word \<Rightarrow> 32 word \<Rightarrow> 32 word" where
  "Maj x y z = xor (xor (and x y) (and x z)) (and y z)"

definition Sigma0 :: "32 word \<Rightarrow> 32 word" where
  "Sigma0 x = xor (xor (rotr 2 x) (rotr 13 x)) (rotr 22 x)"

definition Sigma1 :: "32 word \<Rightarrow> 32 word" where
  "Sigma1 x = xor (xor (rotr 6 x) (rotr 11 x)) (rotr 25 x)"

definition sigma0 :: "32 word \<Rightarrow> 32 word" where
  "sigma0 x = xor (xor (rotr 7 x) (rotr 18 x)) (drop_bit 3 x)"

definition sigma1 :: "32 word \<Rightarrow> 32 word" where
  "sigma1 x = xor (xor (rotr 17 x) (rotr 19 x)) (drop_bit 10 x)"

text \<open>The message, the byte 0x80, zero bytes up to 56 modulo 64, the length in bits.\<close>

definition sha256_pad :: "8 word list \<Rightarrow> 8 word list" where
  "sha256_pad bs =
     bs @ [0x80] @ replicate ((119 - length bs mod 64) mod 64) 0
        @ map (\<lambda>i. of_nat (8 * length bs div 2 ^ (8 * (7 - i)) mod 256)) [0..<8]"

fun be_words :: "8 word list \<Rightarrow> 32 word list" where
  "be_words (a # b # c # d # bs) =
     (push_bit 24 (ucast a) + push_bit 16 (ucast b) + push_bit 8 (ucast c) + ucast d) # be_words bs"
| "be_words bs = []"

fun blocks :: "32 word list \<Rightarrow> 32 word list list" where
  "blocks [] = []"
| "blocks (w # ws) = take 16 (w # ws) # blocks (drop 16 (w # ws))"

text \<open>The message schedule: \<open>n\<close> more words after the ones of the block.\<close>

fun schedule :: "nat \<Rightarrow> 32 word list \<Rightarrow> 32 word list" where
  "schedule 0 ws = ws"
| "schedule (Suc n) ws =
     schedule n
       (ws @ [sigma1 (ws ! (length ws - 2)) + ws ! (length ws - 7)
              + sigma0 (ws ! (length ws - 15)) + ws ! (length ws - 16)])"

type_synonym sha256_state =
  "32 word \<times> 32 word \<times> 32 word \<times> 32 word \<times> 32 word \<times> 32 word \<times> 32 word \<times> 32 word"

fun sha256_round :: "sha256_state \<Rightarrow> 32 word \<times> 32 word \<Rightarrow> sha256_state" where
  "sha256_round (a, b, c, d, e, f, g, h) (k, w) =
     (let T1 = h + Sigma1 e + Ch e f g + k + w;
          T2 = Sigma0 a + Maj a b c
      in (T1 + T2, a, b, c, d + T1, e, f, g))"

fun sha256_add :: "sha256_state \<Rightarrow> sha256_state \<Rightarrow> sha256_state" where
  "sha256_add (a, b, c, d, e, f, g, h) (a', b', c', d', e', f', g', h') =
     (a + a', b + b', c + c', d + d', e + e', f + f', g + g', h + h')"

definition sha256_compress :: "sha256_state \<Rightarrow> 32 word list \<Rightarrow> sha256_state" where
  "sha256_compress H block = sha256_add H (foldl sha256_round H (zip sha256_K (schedule 48 block)))"

definition sha256_init :: sha256_state where
  "sha256_init =
     (0x6A09E667, 0xBB67AE85, 0x3C6EF372, 0xA54FF53A, 0x510E527F, 0x9B05688C, 0x1F83D9AB, 0x5BE0CD19)"

definition sha256 :: "8 word list \<Rightarrow> sha256_state" where
  "sha256 bs = foldl sha256_compress sha256_init (blocks (be_words (sha256_pad bs)))"

definition hex_digit :: "nat \<Rightarrow> code_unit" where
  "hex_digit n = (if n < 10 then 0x30 + of_nat n else 0x57 + of_nat n)"

definition hex_word :: "32 word \<Rightarrow> jsstring" where
  "hex_word x = map (\<lambda>i. hex_digit (unat x div 16 ^ (7 - i) mod 16)) [0..<8]"

fun digest_hex :: "sha256_state \<Rightarrow> jsstring" where
  "digest_hex (a, b, c, d, e, f, g, h) =
     hex_word a @ hex_word b @ hex_word c @ hex_word d @ hex_word e @ hex_word f @ hex_word g
       @ hex_word h"

definition sha256_hex :: "jsstring \<Rightarrow> jsstring" where
  "sha256_hex v = digest_hex (sha256 (utf8 v))"

section \<open>Records, the store and the runtime\<close>

text \<open>
  \<open>interface String\<close>: every field is optional (\<open>id?\<close>, \<open>value?\<close>, ...), and the
  readers of the store guard each access (\<open>str.properties?.length ?? 0\<close>). The fields
  \<open>id\<close>, \<open>value\<close> and \<open>length\<close> carry a prime here.
\<close>

record string_properties =
  length' :: "nat option"
  is_palindrome :: "bool option"
  unique_characters :: "nat option"
  word_count :: "nat option"
  sha256_hash :: "jsstring option"
  character_frequency_map :: "(code_unit \<rightharpoonup> nat) option"

record string_record =
  id' :: "jsstring option"
  value' :: "jsstring option"
  properties :: "string_properties option"
  created_at :: "jsstring option"

text \<open>
  What the handlers take from outside: \<open>new Date().toISOString()\<close>, and whether the
  promise of \<open>fs.writeFile\<close> is fulfilled.
\<close>

record runtime =
  now :: jsstring
  writeFile_ok :: bool

text \<open>
  \<open>stringStore.strings\<close>, and the records that \<open>strings.json\<close> holds (what was last
  written to it with success).
\<close>

record world =
  strings :: "string_record list"
  strings_json :: "string_record list"

text \<open>\<open>res.status(n).json({ error: msg })\<close> and \<open>res.sendStatus(n)\<close>.\<close>

datatype error = HttpError nat string

fun status :: "error \<Rightarrow> nat" where
  "status (HttpError n msg) = n"

text \<open>
  The error classes of the specification, by status: 400 and 422 are validation
  errors, 409 the duplicate, 404 not found, 500 the failure of persistence.
\<close>

definition ValidationError :: "error \<Rightarrow> bool" where
  "ValidationError e = (status e = 400 \<or> status e = 422)"


definition NotFoundError :: "error \<Rightarrow> bool" where
  "NotFoundError e = (status e = 404)"

definition PersistenceError :: "error \<Rightarrow> bool" where
  "PersistenceError e = (status e = 500)"

text \<open>\<open>req.body.value\<close>: a JSON value; what is no string, \<open>null\<close> or absent is \<open>Other\<close>.\<close>

datatype jsvalue = Undefined | Null | Str jsstring | Other

section \<open>addString\<close>

definition addString :: "runtime \<Rightarrow> world \<Rightarrow> jsvalue \<Rightarrow> (error + string_record) \<times> world" where
  "addString rt w body_value =
     (case body_value of
        Undefined \<Rightarrow> (Inl (HttpError 400 ''Value is required.''), w)
      | Null \<Rightarrow> (Inl (HttpError 400 ''Value is required.''), w)
      | Other \<Rightarrow> (Inl (HttpError 422 ''Value must be a string.''), w)
      | Str s \<Rightarrow>
          (let v = toLower s in
           if find (\<lambda>str. value' str = Some v) (strings w) \<noteq> None
           then (Inl (HttpError 409 ''String already exists.''), w)
           else
             (let hash = sha256_hex v;
                  r = \<lparr> id' = Some hash,
                        value' = Some v,
                        properties = Some
                          \<lparr> length' = Some (length v),
                            is_palindrome = Some (is_palindrome_of v),
                            unique_characters = Some (unique_characters_of v),
                            word_count = Some (word_count_of v),
                            sha256_hash = Some hash,
                            character_frequency_map = Some (character_frequency_map_of v) \<rparr>,
                        created_at = Some (now rt) \<rparr>;
                  data = strings w @ [r]
              in (Inr r,
                  \<lparr> strings = data,
                    strings_json = (if writeFile_ok rt then data else strings_json w) \<rparr>))))"

text \<open>
  \<open>getString\<close>: the parameter of the route in lower case, looked up by \<open>===\<close> on
  \<open>value\<close>; the response repeats the parameter as \<open>value\<close>.
\<close>

definition getString :: "world \<Rightarrow> jsstring \<Rightarrow> error + string_record" where
  "getString w string =
     (let s = toLower string in
      case find (\<lambda>str. value' str = Some s) (strings w) of
        None \<Rightarrow> Inl (HttpError 404 ''String not found.'')
      | Some foundString \<Rightarrow>
          Inr \<lparr> id' = id' foundString, value' = Some s,
                properties = properties foundString, created_at = created_at foundString \<rparr>)"

section \<open>Numbers of query parameters\<close>

text \<open>
  A JavaScript number is a binary64 value. The finite ones are rational numbers and
  are kept exactly (minus zero is zero: the comparisons below do not tell them apart).
\<close>

datatype jsnum = NaN | Finite rat | PosInfinity | NegInfinity

fun bit_length :: "nat \<Rightarrow> nat" where
  "bit_length n = (if n = 0 then 0 else Suc (bit_length (n div 2)))"

text \<open>For \<open>q > 0\<close>, the \<open>k\<close> with \<open>2 powi k \<le> q < 2 powi (k + 1)\<close>.\<close>

definition floor_log2 :: "rat \<Rightarrow> int" where
  "floor_log2 q =
     (let k = int (bit_length (nat (fst (quotient_of q)))) - int (bit_length (nat (snd (quotient_of q))))
      in if 2 powi k \<le> q then k else k - 1)"

text \<open>
  The number nearest to a rational: 53 significant bits, the least exponent that of the
  subnormal numbers, a tie to the even significand, and infinity from \<open>2 ^ 1024\<close> on.
\<close>

definition roundToDouble :: "rat \<Rightarrow> jsnum" where
  "roundToDouble q =
     (if q = 0 then Finite 0
      else
        (let a = \<bar>q\<bar>;
             e = max (floor_log2 a) (- 1022) - 52;
             m = a / 2 powi e;
             f = \<lfloor>m\<rfloor>;
             d = m - of_int f;
             r = (if d < 1 / 2 then f else if 1 / 2 < d then f + 1 else if even f then f else f + 1);
             x = of_int r * 2 powi e
         in if 2 ^ 1024 \<le> x then (if q < 0 then NegInfinity else PosInfinity)
            else Finite (if q < 0 then - x else x)))"

definition isDecimalDigit :: "code_unit \<Rightarrow> bool" where
  "isDecimalDigit c = (0x30 \<le> c \<and> c \<le> 0x39)"

text \<open>The value of a digit, hexadecimal digits included; 16 for any other code unit.\<close>

definition digitValue :: "code_unit \<Rightarrow> nat" where
  "digitValue c =
     (if 0x30 \<le> c \<and> c \<le> 0x39 then unat c - 0x30
      else if 0x61 \<le> c \<and> c \<le> 0x66 then unat c - 0x57
      else if 0x41 \<le> c \<and> c \<le> 0x46 then unat c - 0x37
      else 16)"

definition digitsValue :: "nat \<Rightarrow> jsstring \<Rightarrow> nat" where
  "digitsValue b ds = foldl (\<lambda>a c. a * b + digitValue c) 0 ds"

definition isDigits :: "nat \<Rightarrow> jsstring \<Rightarrow> bool" where
  "isDigits b ds = (ds \<noteq> [] \<and> list_all (\<lambda>c. digitValue c < b) ds)"

text \<open>ExponentPart, or nothing: \<open>e\<close> or \<open>E\<close>, an optional sign, decimal digits.\<close>

definition exponentPart :: "jsstring \<Rightarrow> int option" where
  "exponentPart s =
     (case s of
        [] \<Rightarrow> Some 0
      | c # t \<Rightarrow>
          if c = 0x65 \<or> c = 0x45 then
            (case t of
               [] \<Rightarrow> None
             | g # ds \<Rightarrow>
                 if g = 0x2B then (if isDigits 10 ds then Some (int (digitsValue 10 ds)) else None)
                 else if g = 0x2D then (if isDigits 10 ds then Some (- int (digitsValue 10 ds)) else None)
                 else if isDigits 10 t then Some (int (digitsValue 10 t))
                 else None)
          else None)"

text \<open>
  StrUnsignedDecimalLiteral without \<open>Infinity\<close>: digits, an optional point and more
  digits (one of the two runs of digits is not empty), an optional exponent.
\<close>

definition unsignedDecimal :: "jsstring \<Rightarrow> rat option" where
  "unsignedDecimal s =
     (let ip = takeWhile isDecimalDigit s;
          r1 = dropWhile isDecimalDigit s;
          dot = (r1 \<noteq> [] \<and> hd r1 = 0x2E);
          fp = (if dot then takeWhile isDecimalDigit (tl r1) else []);
          r2 = (if dot then dropWhile isDecimalDigit (tl r1) else r1)
      in if ip = [] \<and> fp = [] then None
         else (case exponentPart r2 of
                 None \<Rightarrow> None
               | Some e \<Rightarrow> Some (of_int (int (digitsValue 10 (ip @ fp))) * 10 powi (e - int (length fp)))))"

definition unsignedLiteral :: "jsstring \<Rightarrow> jsnum" where
  "unsignedLiteral s =
     (if s = js ''Infinity'' then PosInfinity
      else (case unsignedDecimal s of None \<Rightarrow> NaN | Some q \<Rightarrow> roundToDouble q))"

fun negate :: "jsnum \<Rightarrow> jsnum" where
  "negate NaN = NaN"
| "negate (Finite q) = Finite (- q)"
| "negate PosInfinity = NegInfinity"
| "negate NegInfinity = PosInfinity"

text \<open>NonDecimalIntegerLiteral: \<open>0b\<close>, \<open>0o\<close> or \<open>0x\<close> (either case) and digits of that base.\<close>

definition nonDecimalBase :: "jsstring \<Rightarrow> nat option" where
  "nonDecimalBase s =
     (case s of
        z # p # ds \<Rightarrow>
          if z \<noteq> 0x30 then None
          else if p = 0x62 \<or> p = 0x42 then Some 2
          else if p = 0x6F \<or> p = 0x4F then Some 8
          else if p = 0x78 \<or> p = 0x58 then Some 16
          else None
      | _ \<Rightarrow> None)"

text \<open>\<open>Number(s)\<close> for a string \<open>s\<close> (StringToNumber of ECMAScript).\<close>

definition Number :: "jsstring \<Rightarrow> jsnum" where
  "Number s =
     (let t = trim s in
      if t = [] then Finite 0
      else (case nonDecimalBase t of
              Some b \<Rightarrow>
                if isDigits b (drop 2 t) then roundToDouble (of_int (int (digitsValue b (drop 2 t)))) else NaN
            | None \<Rightarrow>
                (case t of
                   c # u \<Rightarrow>
                     if c = 0x2B then unsignedLiteral u
                     else if c = 0x2D then negate (unsignedLiteral u)
                     else unsignedLiteral t
                 | [] \<Rightarrow> NaN)))"

section \<open>getAllStringsWithFiltering\<close>

text \<open>
  A value of \<open>req.query\<close>, as the query parser of Express gives it: a string, an array
  (a repeated parameter) or a nested object. None of them is a boolean.
\<close>

datatype qvalue = QString jsstring | QArray "qvalue list" | QObject

record query =
  raw_is_palindrome :: "qvalue option"
  raw_min_length :: "qvalue option"
  raw_max_length :: "qvalue option"
  raw_word_count :: "qvalue option"
  raw_contains_character :: "qvalue option"

fun join_comma :: "jsstring list \<Rightarrow> jsstring" where
  "join_comma [] = []"
| "join_comma [x] = x"
| "join_comma (x # y # ys) = x @ 0x2C # join_comma (y # ys)"

text \<open>\<open>String(p)\<close>: an array is joined with commas, an object is \<open>[object Object]\<close>.\<close>

fun String_of :: "qvalue \<Rightarrow> jsstring" where
  "String_of (QString s) = s"
| "String_of (QArray xs) = join_comma (map String_of xs)"
| "String_of QObject = js ''[object Object]''"

text \<open>\<open>String(p)\<close> where \<open>p\<close> may be \<open>undefined\<close> (the first element of an empty array).\<close>

definition String_of_opt :: "qvalue option \<Rightarrow> jsstring" where
  "String_of_opt p = (case p of None \<Rightarrow> js ''undefined'' | Some v \<Rightarrow> String_of v)"

text \<open>\<open>Array.isArray(p) ? p[0] : p\<close>\<close>

definition first_if_array :: "qvalue \<Rightarrow> qvalue option" where
  "first_if_array p =
     (case p of
        QArray xs \<Rightarrow> (case xs of [] \<Rightarrow> None | x # _ \<Rightarrow> Some x)
      | _ \<Rightarrow> Some p)"

text \<open>The result of \<open>parseNumberParam\<close>: \<open>number | undefined | null\<close>.\<close>

datatype number_param = NumUndefined | NumNull | Num rat

definition parseNumberParam :: "qvalue option \<Rightarrow> number_param" where
  "parseNumberParam p =
     (case p of
        None \<Rightarrow> NumUndefined
      | Some v \<Rightarrow>
          (let s = trim (String_of_opt (first_if_array v)) in
           if s = [] then NumNull
           else (case Number s of Finite n \<Rightarrow> Num n | _ \<Rightarrow> NumNull)))"

definition is_palindrome_message :: string where
  "is_palindrome_message =
     ''is_palindrome must be '' @ [CHR 0x27] @ ''true'' @ [CHR 0x27] @ '' or '' @ [CHR 0x27] @ ''false'' @ [CHR 0x27]"

definition parse_is_palindrome :: "qvalue option \<Rightarrow> error + bool option" where
  "parse_is_palindrome p =
     (case p of
        None \<Rightarrow> Inr None
      | Some (QString v) \<Rightarrow>
          (let lower = toLower v in
           if lower = js ''true'' then Inr (Some True)
           else if lower = js ''false'' then Inr (Some False)
           else Inl (HttpError 400 is_palindrome_message))
      | Some _ \<Rightarrow> Inl (HttpError 400 is_palindrome_message))"

text \<open>
  \<open>contains_character_values\<close>: the trimmed values that are not empty, \<open>undefined\<close>
  when the parameter is absent or none is left.
\<close>

definition parse_contains_character :: "qvalue option \<Rightarrow> jsstring list option" where
  "parse_contains_character p =
     (case p of
        None \<Rightarrow> None
      | Some v \<Rightarrow>
          (let contains_character_values =
                 (case v of
                    QArray xs \<Rightarrow> filter (\<lambda>s. length s > 0) (map trim (map String_of xs))
                  | _ \<Rightarrow> (let s = trim (String_of v) in if length s > 0 then [s] else []))
           in if length contains_character_values = 0 then None
              else Some contains_character_values))"

text \<open>\<open>str.properties?.f\<close> and \<open>x ?? d\<close>.\<close>

definition prop_of :: "(string_properties \<Rightarrow> 'a option) \<Rightarrow> string_record \<Rightarrow> 'a option" where
  "prop_of f str = (case properties str of None \<Rightarrow> None | Some p \<Rightarrow> f p)"

definition nullish :: "'a option \<Rightarrow> 'a \<Rightarrow> 'a" where
  "nullish x d = (case x of None \<Rightarrow> d | Some v \<Rightarrow> v)"

text \<open>\<open>Boolean(b)\<close> for \<open>b\<close> a boolean or \<open>undefined\<close>.\<close>

definition Boolean :: "bool option \<Rightarrow> bool" where
  "Boolean b = (case b of None \<Rightarrow> False | Some v \<Rightarrow> v)"

text \<open>The five callbacks of \<open>filteredStrings.filter\<close>, in the order of the source.\<close>

definition keep_is_palindrome :: "bool \<Rightarrow> string_record \<Rightarrow> bool" where
  "keep_is_palindrome b str = (Boolean (prop_of is_palindrome str) = b)"

definition keep_min_length :: "rat \<Rightarrow> string_record \<Rightarrow> bool" where
  "keep_min_length n str = (of_nat (nullish (prop_of length' str) 0) \<ge> n)"

definition keep_max_length :: "rat \<Rightarrow> string_record \<Rightarrow> bool" where
  "keep_max_length n str = (of_nat (nullish (prop_of length' str) 0) \<le> n)"

definition keep_word_count :: "rat \<Rightarrow> string_record \<Rightarrow> bool" where
  "keep_word_count n str = (of_nat (nullish (prop_of word_count str) 0) = n)"

definition keep_contains_character :: "jsstring list \<Rightarrow> string_record \<Rightarrow> bool" where
  "keep_contains_character vals str =
     (case value' str of
        None \<Rightarrow> False
      | Some v \<Rightarrow> list_ex (\<lambda>val. js_includes v val) vals)"

text \<open>\<open>appliedFilters\<close>; \<open>contains_character\<close> is a string when one value is left.\<close>

datatype string_or_array = One jsstring | Many "jsstring list"

record filters =
  applied_is_palindrome :: "bool option"
  applied_min_length :: "rat option"
  applied_max_length :: "rat option"
  applied_word_count :: "rat option"
  applied_contains_character :: "string_or_array option"

record page =
  data :: "string_record list"
  count :: nat

record listing = page +
  filters_applied :: filters

definition number_of :: "number_param \<Rightarrow> rat option" where
  "number_of p = (case p of Num n \<Rightarrow> Some n | _ \<Rightarrow> None)"

definition apply_filter :: "'a option \<Rightarrow> ('a \<Rightarrow> string_record \<Rightarrow> bool) \<Rightarrow> string_record list \<Rightarrow> string_record list" where
  "apply_filter p keep filteredStrings =
     (case p of None \<Rightarrow> filteredStrings | Some x \<Rightarrow> filter (keep x) filteredStrings)"

definition getAllStringsWithFiltering :: "world \<Rightarrow> query \<Rightarrow> error + listing" where
  "getAllStringsWithFiltering w raw =
     (case parse_is_palindrome (raw_is_palindrome raw) of
        Inl e \<Rightarrow> Inl e
      | Inr is_palindrome_p \<Rightarrow>
          (let min_length = parseNumberParam (raw_min_length raw);
               max_length = parseNumberParam (raw_max_length raw);
               word_count_p = parseNumberParam (raw_word_count raw)
           in if min_length = NumNull then Inl (HttpError 400 ''min_length must be a valid number'')
              else if max_length = NumNull then Inl (HttpError 400 ''max_length must be a valid number'')
              else if word_count_p = NumNull then Inl (HttpError 400 ''word_count must be a valid number'')
              else if (case (min_length, max_length) of (Num a, Num b) \<Rightarrow> a > b | _ \<Rightarrow> False)
              then Inl (HttpError 400 ''min_length cannot be greater than max_length'')
              else
                (let contains_character_values = parse_contains_character (raw_contains_character raw);
                     filteredStrings =
                       apply_filter contains_character_values keep_contains_character
                         (apply_filter (number_of word_count_p) keep_word_count
                           (apply_filter (number_of max_length) keep_max_length
                             (apply_filter (number_of min_length) keep_min_length
                               (apply_filter is_palindrome_p keep_is_palindrome (strings w)))))
                 in Inr \<lparr> data = filteredStrings,
                          count = length filteredStrings,
                          filters_applied =
                            \<lparr> applied_is_palindrome = is_palindrome_p,
                              applied_min_length = number_of min_length,
                              applied_max_length = number_of max_length,
                              applied_word_count = number_of word_count_p,
                              applied_contains_character =
                                (case contains_character_values of
                                   None \<Rightarrow> None
                                 | Some vals \<Rightarrow>
                                     Some (if length vals = 1 then One (hd vals) else Many vals)) \<rparr> \<rparr>)))"

section \<open>filterByNaturalLanguage\<close>

text \<open>
  What the handler reads of the request: \<open>req.query.query\<close>, \<open>req.query.q\<close>,
  \<open>req.params.query\<close> and \<open>req.params.string\<close> (a parameter of a route is a string).
\<close>

record nl_request =
  query_query :: "qvalue option"
  query_q :: "qvalue option"
  params_query :: "jsstring option"
  params_string :: "jsstring option"

text \<open>\<open>a ?? b\<close> on values that may be \<open>undefined\<close>.\<close>

definition coalesce :: "'a option \<Rightarrow> 'a option \<Rightarrow> 'a option" where
  "coalesce a b = (case a of None \<Rightarrow> b | Some x \<Rightarrow> Some x)"

record nl_result = page +
  original :: jsstring
  parsed_filters :: "string list"
  message :: "string option"

text \<open>The callbacks of the four cases of the \<open>switch\<close>.\<close>

definition keep_single_word_palindromic :: "string_record \<Rightarrow> bool" where
  "keep_single_word_palindromic s =
     (prop_of is_palindrome s = Some True \<and> nullish (prop_of word_count s) 0 = 1)"

definition keep_longer_than_10 :: "string_record \<Rightarrow> bool" where
  "keep_longer_than_10 s = (nullish (prop_of length' s) 0 > 10)"

definition keep_palindromic_first_vowel :: "string_record \<Rightarrow> bool" where
  "keep_palindromic_first_vowel s =
     (if prop_of is_palindrome s \<noteq> Some True \<or> value' s = None then False
      else (case value' s of None \<Rightarrow> False | Some v \<Rightarrow> js_includes (toLower v) (js ''a'')))"

definition keep_letter_z :: "string_record \<Rightarrow> bool" where
  "keep_letter_z s =
     (case value' s of None \<Rightarrow> False | Some v \<Rightarrow> js_includes (toLower v) (js ''z''))"

text \<open>
  \<open>(req.query && (req.query.query ?? req.query.q)) ??
  (req.params && (req.params.query ?? req.params.string))\<close>
\<close>

definition raw_of :: "nl_request \<Rightarrow> qvalue option" where
  "raw_of req =
     coalesce (coalesce (query_query req) (query_q req))
       (map_option QString (coalesce (params_query req) (params_string req)))"

definition filterByNaturalLanguage :: "world \<Rightarrow> nl_request \<Rightarrow> error + nl_result" where
  "filterByNaturalLanguage w req =
     (let raw = raw_of req
      in case raw of
           None \<Rightarrow> Inl (HttpError 400 ''Query is required.'')
         | Some r \<Rightarrow>
             (case first_if_array r of
                Some (QString queryStr) \<Rightarrow>
                  (let query = toLower (trim queryStr);
                       filteredStrings = strings w;
                       found = (\<lambda>fs pf. Inr \<lparr> data = fs, count = length fs, original = queryStr,
                                               parsed_filters = pf, message = None \<rparr>)
                   in if query = js ''all single word palindromic strings'' then
                        found (filter keep_single_word_palindromic filteredStrings)
                          [''is_palindrome: true'', ''word_count: 1'']
                      else if query = js ''strings longer than 10 characters'' then
                        found (filter keep_longer_than_10 filteredStrings) [''min_length: 11'']
                      else if query = js ''palindromic strings that contain the first vowel'' then
                        found (filter keep_palindromic_first_vowel filteredStrings)
                          [''is_palindrome: true'',
                           ''contains_character: '' @ [CHR 0x22] @ ''a'' @ [CHR 0x22]]
                      else if query = js ''strings containing the letter z'' then
                        found (filter keep_letter_z filteredStrings)
                          [''contains_character: '' @ [CHR 0x22] @ ''z'' @ [CHR 0x22]]
                      else
                        Inr \<lparr> data = [], count = 0, original = queryStr, parsed_filters = [],
                              message = Some ''Could not parse natural language query'' \<rparr>)
              | _ \<Rightarrow> Inl (HttpError 400 ''Query must be a string.'')))"

section \<open>deleteString\<close>

fun findIndex :: "('a \<Rightarrow> bool) \<Rightarrow> 'a list \<Rightarrow> nat option" where
  "findIndex P [] = None"
| "findIndex P (x # xs) = (if P x then Some 0 else map_option Suc (findIndex P xs))"

text \<open>
  \<open>string\<close> is \<open>req.params.string\<close>. \<open>decoded\<close> is what \<open>decodeURIComponent(string)\<close>
  returns, \<open>None\<close> when it throws (the \<open>catch\<close> answers 500). The new array is in
  \<open>stringStore\<close> before the write is awaited; a rejected write ends in the \<open>catch\<close>.
\<close>

definition deleteString :: "runtime \<Rightarrow> world \<Rightarrow> jsstring option \<Rightarrow> jsstring option \<Rightarrow> (error + unit) \<times> world" where
  "deleteString rt w string decoded =
     (if string = None \<or> string = Some [] then (Inl (HttpError 404 ''Not Found''), w)
      else (case decoded of
              None \<Rightarrow> (Inl (HttpError 500 ''Server error''), w)
            | Some decodedString \<Rightarrow>
                (let lowerString = toLower decodedString in
                 case findIndex (\<lambda>str. value' str = Some lowerString) (strings w) of
                   None \<Rightarrow> (Inl (HttpError 404 ''Not Found''), w)
                 | Some existingIndex \<Rightarrow>
                     (let updatedStrings =
                            take existingIndex (strings w) @ drop (Suc existingIndex) (strings w)
                      in if writeFile_ok rt
                         then (Inr (), \<lparr> strings = updatedStrings, strings_json = updatedStrings \<rparr>)
                         else (Inl (HttpError 500 ''Server error''),
                               \<lparr> strings = updatedStrings, strings_json = strings_json w \<rparr>)))))"

section \<open>Reference definitions\<close>

text \<open>
  The words of the specification for the derived properties: the tokens of a value are
  its maximal runs of code units that are not white space, counted after trimming; the
  frequency map gives every code unit of the value the number of its occurrences.
\<close>

function spec_tokens :: "jsstring \<Rightarrow> jsstring list" where
  "spec_tokens s =
     (case dropWhile isWhiteSpace s of
        [] \<Rightarrow> []
      | c # cs \<Rightarrow>
          (c # takeWhile (\<lambda>x. \<not> isWhiteSpace x) cs)
            # spec_tokens (dropWhile (\<lambda>x. \<not> isWhiteSpace x) cs))"
  by pat_completeness auto
termination
proof (relation "measure length", goal_cases)
  case 1 show ?case by simp
next
  case (2 s c cs)
  have "length (dropWhile (\<lambda>x. \<not> isWhiteSpace x) cs) \<le> length cs"
    by (rule length_dropWhile_le)
  moreover have "length (c # cs) \<le> length s"
    using 2 length_dropWhile_le [of isWhiteSpace s] by simp
  ultimately show ?case by simp
qed

definition spec_word_count :: "jsstring \<Rightarrow> nat" where
  "spec_word_count v = length (spec_tokens (trim v))"

definition spec_character_frequency :: "jsstring \<Rightarrow> (code_unit \<rightharpoonup> nat)" where
  "spec_character_frequency v = (\<lambda>c. if c \<in> set v then Some (count_list v c) else None)"

fun has_surrogate_pair :: "jsstring \<Rightarrow> bool" where
  "has_surrogate_pair (c # d # cs) =
     ((isHighSurrogate c \<and> isLowSurrogate d) \<or> has_surrogate_pair (d # cs))"
| "has_surrogate_pair cs = False"


text \<open>The inputs of the scenarios: a clock reading, a write that succeeds, an empty store.\<close>

definition scenario_runtime :: runtime where
  "scenario_runtime = \<lparr> now = js ''2025-10-20T12:00:00.000Z'', writeFile_ok = True \<rparr>"

definition empty_world :: world where
  "empty_world = \<lparr> strings = [], strings_json = [] \<rparr>"

text \<open>
  The structured filter in the words of the specification: a parameter that imposes no
  constraint, the text of a numeric parameter that is empty or no number, a query with
  more parameters than another, the substrings that a request provides (trimmed, the
  empty ones left out) and a value that contains one of them.
\<close>

definition keep_opt :: "'a option \<Rightarrow> ('a \<Rightarrow> string_record \<Rightarrow> bool) \<Rightarrow> string_record \<Rightarrow> bool" where
  "keep_opt p keep str = (case p of None \<Rightarrow> True | Some x \<Rightarrow> keep x str)"

definition empty_or_non_numeric :: "qvalue \<Rightarrow> bool" where
  "empty_or_non_numeric v =
     (let s = trim (String_of_opt (first_if_array v)) in s = [] \<or> Number s = NaN)"

definition extends :: "query \<Rightarrow> query \<Rightarrow> bool" where
  "extends q q' =
     ((raw_is_palindrome q = None \<or> raw_is_palindrome q' = raw_is_palindrome q)
      \<and> (raw_min_length q = None \<or> raw_min_length q' = raw_min_length q)
      \<and> (raw_max_length q = None \<or> raw_max_length q' = raw_max_length q)
      \<and> (raw_word_count q = None \<or> raw_word_count q' = raw_word_count q)
      \<and> (raw_contains_character q = None \<or> raw_contains_character q' = raw_contains_character q))"

definition provided_substrings :: "qvalue option \<Rightarrow> jsstring list" where
  "provided_substrings p =
     (case p of
        None \<Rightarrow> []
      | Some (QArray xs) \<Rightarrow> filter (\<lambda>s. s \<noteq> []) (map (\<lambda>x. trim (String_of x)) xs)
      | Some v \<Rightarrow> filter (\<lambda>s. s \<noteq> []) [trim (String_of v)])"


definition no_filters :: query where
  "no_filters = \<lparr> raw_is_palindrome = None, raw_min_length = None, raw_max_length = None,
     raw_word_count = None, raw_contains_character = None \<rparr>"

text \<open>The predicate that a query applies to each record, once its parameters are valid.\<close>

definition matches :: "query \<Rightarrow> string_record \<Rightarrow> bool" where
  "matches raw str =
     (keep_opt (case parse_is_palindrome (raw_is_palindrome raw) of Inl e \<Rightarrow> None | Inr b \<Rightarrow> b)
        keep_is_palindrome str
      \<and> keep_opt (number_of (parseNumberParam (raw_min_length raw))) keep_min_length str
      \<and> keep_opt (number_of (parseNumberParam (raw_max_length raw))) keep_max_length str
      \<and> keep_opt (number_of (parseNumberParam (raw_word_count raw))) keep_word_count str
      \<and> keep_opt (parse_contains_character (raw_contains_character raw)) keep_contains_character str)"

definition valid :: "query \<Rightarrow> bool" where
  "valid raw =
     ((case parse_is_palindrome (raw_is_palindrome raw) of Inl e \<Rightarrow> False | Inr b \<Rightarrow> True)
      \<and> parseNumberParam (raw_min_length raw) \<noteq> NumNull
      \<and> parseNumberParam (raw_max_length raw) \<noteq> NumNull
      \<and> parseNumberParam (raw_word_count raw) \<noteq> NumNull
      \<and> \<not> (case (parseNumberParam (raw_min_length raw), parseNumberParam (raw_max_length raw)) of
             (Num a, Num b) \<Rightarrow> a > b | _ \<Rightarrow> False))"

text \<open>
  A record that an insertion created; a store whose values are in lower case, as the
  values of created records are; the table of the canned phrases with the structured
  query of each (section 4.4 of the specification); the request \<open>?query=s\<close>; the store
  of the scenario with "zebra" and "apple".
\<close>

definition inserted_record :: "string_record \<Rightarrow> bool" where
  "inserted_record r = (\<exists>rt w s w'. addString rt w (Str s) = (Inr r, w'))"

definition lower_case_values :: "world \<Rightarrow> bool" where
  "lower_case_values w =
     (\<forall>r\<in>set (strings w). case value' r of None \<Rightarrow> True | Some v \<Rightarrow> toLower v = v)"

definition structured :: "string option \<Rightarrow> string option \<Rightarrow> string option \<Rightarrow> string option \<Rightarrow> query" where
  "structured pal minl wc cc =
     \<lparr> raw_is_palindrome = map_option (\<lambda>s. QString (js s)) pal,
       raw_min_length = map_option (\<lambda>s. QString (js s)) minl,
       raw_max_length = None,
       raw_word_count = map_option (\<lambda>s. QString (js s)) wc,
       raw_contains_character = map_option (\<lambda>s. QString (js s)) cc \<rparr>"

definition canned :: "(string \<times> query) list" where
  "canned =
     [(''all single word palindromic strings'', structured (Some ''true'') None (Some ''1'') None),
      (''strings longer than 10 characters'', structured None (Some ''11'') None None),
      (''palindromic strings that contain the first vowel'',
         structured (Some ''true'') None None (Some ''a'')),
      (''strings containing the letter z'', structured None None None (Some ''z''))]"

definition nl_query :: "jsstring \<Rightarrow> nl_request" where
  "nl_query s = \<lparr> query_query = Some (QString s), query_q = None, params_query = None,
     params_string = None \<rparr>"

definition zebra_apple :: world where
  "zebra_apple =
     snd (addString scenario_runtime
            (snd (addString scenario_runtime empty_world (Str (js ''zebra''))))
            (Str (js ''apple'')))"

section \<open>The derived properties against their reference definitions\<close>

declare spec_tokens.simps [simp del]

lemma foldl_bump:
  "foldl bump m v c =
     (if c \<in> set v then Some ((case m c of None \<Rightarrow> 0 | Some n \<Rightarrow> n) + count_list v c) else m c)"
  by (induction v arbitrary: m) (auto simp: bump_def)

lemma character_frequency_map_of_spec:
  "character_frequency_map_of v = spec_character_frequency v"
  by (rule ext) (simp add: character_frequency_map_of_def spec_character_frequency_def foldl_bump)

lemma string_iterator_no_pair:
  "\<not> has_surrogate_pair v \<Longrightarrow> string_iterator v = map (\<lambda>c. [c]) v"
  by (induction v rule: string_iterator.induct) auto

lemma unique_characters_no_pair:
  assumes "\<not> has_surrogate_pair v"
  shows "unique_characters_of v = card (set v)"
proof -
  have "unique_characters_of v = card (set (map (\<lambda>c. [c]) v))"
    by (simp add: unique_characters_of_def string_iterator_no_pair [OF assms] length_remdups_card_conv)
  also have "\<dots> = card ((\<lambda>c. [c]) ` set v)" by simp
  also have "\<dots> = card (set v)" by (rule card_image) (simp add: inj_on_def)
  finally show ?thesis .
qed

lemma spec_tokens_Nil [simp]: "spec_tokens [] = []"
  by (simp add: spec_tokens.simps)

lemma spec_tokens_ws: "isWhiteSpace c \<Longrightarrow> spec_tokens (c # cs) = spec_tokens cs"
  by (subst spec_tokens.simps, subst (2) spec_tokens.simps) simp

lemma spec_tokens_dropWhile: "spec_tokens (dropWhile isWhiteSpace s) = spec_tokens s"
  by (induction s) (simp_all add: spec_tokens_ws)

lemma spec_tokens_nonws:
  "\<not> isWhiteSpace c \<Longrightarrow>
   spec_tokens (c # cs) =
     (c # takeWhile (\<lambda>x. \<not> isWhiteSpace x) cs) # spec_tokens (dropWhile (\<lambda>x. \<not> isWhiteSpace x) cs)"
  by (subst spec_tokens.simps) simp

lemma split_ws_shape:
  "split_ws s \<noteq> [] \<and> hd (split_ws s) = takeWhile (\<lambda>x. \<not> isWhiteSpace x) s \<and>
   filter (\<lambda>t. t \<noteq> []) (tl (split_ws s)) = spec_tokens (dropWhile (\<lambda>x. \<not> isWhiteSpace x) s)"
proof (induction s rule: split_ws.induct)
  case 1
  show ?case by simp
next
  case (2 c cs)
  show ?case
  proof (cases "isWhiteSpace c")
    case True
    let ?d = "dropWhile isWhiteSpace cs"
    from 2(1) [OF True] obtain t ts where ts: "split_ws ?d = t # ts"
      and t: "t = takeWhile (\<lambda>x. \<not> isWhiteSpace x) ?d"
      and f: "filter (\<lambda>t. t \<noteq> []) ts = spec_tokens (dropWhile (\<lambda>x. \<not> isWhiteSpace x) ?d)"
      by (cases "split_ws ?d") auto
    have "filter (\<lambda>t. t \<noteq> []) (split_ws ?d) = spec_tokens ?d"
    proof (cases ?d)
      case Nil
      show ?thesis unfolding Nil by simp
    next
      case (Cons x xs)
      then have "\<not> isWhiteSpace x"
        by (metis hd_dropWhile list.sel(1) list.distinct(1))
      with Cons ts t f show ?thesis by (simp add: spec_tokens_nonws)
    qed
    with True show ?thesis by (simp add: spec_tokens_ws spec_tokens_dropWhile)
  next
    case False
    from 2(2) [OF False] obtain t ts where ts: "split_ws cs = t # ts"
      and t: "t = takeWhile (\<lambda>x. \<not> isWhiteSpace x) cs"
      and f: "filter (\<lambda>t. t \<noteq> []) ts = spec_tokens (dropWhile (\<lambda>x. \<not> isWhiteSpace x) cs)"
      by (cases "split_ws cs") auto
    with False show ?thesis by simp
  qed
qed

lemma split_ws_filter: "filter (\<lambda>t. t \<noteq> []) (split_ws s) = spec_tokens s"
proof (cases s)
  case Nil
  then show ?thesis by simp
next
  case (Cons c cs)
  obtain t ts where ts: "split_ws s = t # ts"
    using split_ws_shape [of s] by (cases "split_ws s") auto
  with split_ws_shape [of s] have t: "t = takeWhile (\<lambda>x. \<not> isWhiteSpace x) s"
    and f: "filter (\<lambda>t. t \<noteq> []) ts = spec_tokens (dropWhile (\<lambda>x. \<not> isWhiteSpace x) s)"
    by auto
  show ?thesis
  proof (cases "isWhiteSpace c")
    case True
    with Cons ts t f show ?thesis by simp
  next
    case False
    with Cons ts t f show ?thesis by (simp add: spec_tokens_nonws)
  qed
qed

lemma split_ws_tl_nonempty:
  "s \<noteq> [] \<Longrightarrow> \<not> isWhiteSpace (last s) \<Longrightarrow> [] \<notin> set (tl (split_ws s))"
proof (induction s rule: split_ws.induct)
  case 1
  then show ?case by simp
next
  case (2 c cs)
  show ?case
  proof (cases "isWhiteSpace c")
    case True
    let ?d = "dropWhile isWhiteSpace cs"
    from True 2(4) have cs: "cs \<noteq> []" by auto
    with 2(4) have lc: "\<not> isWhiteSpace (last cs)" by simp
    have d: "?d \<noteq> []"
      using cs lc by (metis dropWhile_eq_Nil_conv last_in_set)
    have "last ?d = last cs"
      using d by (metis append_is_Nil_conv last_appendR takeWhile_dropWhile_id)
    with lc d 2(1) [OF True] have tl: "[] \<notin> set (tl (split_ws ?d))" by simp
    have "\<not> isWhiteSpace (hd ?d)" using d by (simp add: hd_dropWhile)
    then have "hd (split_ws ?d) \<noteq> []"
      using split_ws_shape [of ?d] d by (cases ?d) auto
    with tl have "[] \<notin> set (split_ws ?d)"
      using split_ws_shape [of ?d] by (cases "split_ws ?d") auto
    with True show ?thesis by simp
  next
    case False
    show ?thesis
    proof (cases cs)
      case Nil
      with False show ?thesis by simp
    next
      case (Cons x xs)
      with 2(4) have "\<not> isWhiteSpace (last cs)" by simp
      with Cons 2(2) [OF False] have "[] \<notin> set (tl (split_ws cs))" by simp
      with False show ?thesis
        using split_ws_shape [of cs] by (cases "split_ws cs") auto
    qed
  qed
qed

lemma trim_hd: "trim s \<noteq> [] \<Longrightarrow> \<not> isWhiteSpace (hd (trim s))"
proof -
  assume a: "trim s \<noteq> []"
  let ?d = "dropWhile isWhiteSpace s"
  let ?r = "dropWhile isWhiteSpace (rev ?d)"
  have r: "?r \<noteq> []" using a by (simp add: trim_def)
  have d: "?d \<noteq> []"
  proof
    assume e: "?d = []"
    show False using r unfolding e by simp
  qed
  have "hd (trim s) = last ?r" using r by (simp add: trim_def hd_rev)
  also have "\<dots> = last (rev ?d)"
    using r by (metis append_is_Nil_conv last_appendR takeWhile_dropWhile_id)
  also have "\<dots> = hd ?d" using d by (simp add: last_rev)
  finally show ?thesis using d by (simp add: hd_dropWhile)
qed

lemma trim_last: "trim s \<noteq> [] \<Longrightarrow> \<not> isWhiteSpace (last (trim s))"
proof -
  assume a: "trim s \<noteq> []"
  let ?r = "dropWhile isWhiteSpace (rev (dropWhile isWhiteSpace s))"
  have r: "?r \<noteq> []" using a by (simp add: trim_def)
  have "last (trim s) = hd ?r" using r by (simp add: trim_def last_rev)
  then show ?thesis using r by (simp add: hd_dropWhile)
qed

lemma word_count_of_spec: "word_count_of v = spec_word_count v"
proof (cases "trim v = []")
  case True
  then show ?thesis by (simp add: word_count_of_def spec_word_count_def)
next
  case False
  let ?t = "trim v"
  have hd: "hd (split_ws ?t) \<noteq> []"
    using split_ws_shape [of ?t] trim_hd [OF False] False by (cases ?t) auto
  have "[] \<notin> set (tl (split_ws ?t))"
    by (rule split_ws_tl_nonempty [OF False trim_last [OF False]])
  with hd have "[] \<notin> set (split_ws ?t)"
    using split_ws_shape [of ?t] by (cases "split_ws ?t") auto
  then have "filter (\<lambda>t. t \<noteq> []) (split_ws ?t) = split_ws ?t"
    by (simp add: filter_id_conv) metis
  then have "length (split_ws ?t) = length (spec_tokens ?t)"
    by (simp add: split_ws_filter)
  with False show ?thesis by (simp add: word_count_of_def spec_word_count_def)
qed


lemma toLower_Racecar: "toLower (js ''Racecar'') = js ''racecar''"
  by (simp add: js_def toLower_def lowerUnit_def isUpper_def)

text \<open>
  Length, palindrome, word count and frequency map of a created record are the reference
  ones for every string; the number of unique characters is the number of distinct code
  units when the value has no surrogate pair.
\<close>

lemma addString_properties_reference:
  assumes "addString rt w (Str s) = (Inr r, w')"
  shows "prop_of length' r = Some (length (toLower s))
       \<and> prop_of is_palindrome r = Some (toLower s = rev (toLower s))
       \<and> prop_of word_count r = Some (spec_word_count (toLower s))
       \<and> prop_of character_frequency_map r = Some (spec_character_frequency (toLower s))
       \<and> (\<not> has_surrogate_pair (toLower s)
            \<longrightarrow> prop_of unique_characters r = Some (card (set (toLower s))))"
  using assms
  by (auto simp: addString_def Let_def prop_of_def is_palindrome_of_def word_count_of_spec
      character_frequency_map_of_spec unique_characters_no_pair split: if_splits)

lemma addString_empty_string:
  "\<exists>r w'. addString rt empty_world (Str []) = (Inr r, w')
     \<and> prop_of length' r = Some 0 \<and> prop_of word_count r = Some 0
     \<and> prop_of is_palindrome r = Some True \<and> prop_of unique_characters r = Some 0
     \<and> prop_of character_frequency_map r = Some Map.empty"
  by (simp add: addString_def empty_world_def Let_def prop_of_def toLower_def is_palindrome_of_def
      word_count_of_def trim_def unique_characters_of_def character_frequency_map_of_def)

lemma addString_Racecar:
  "\<exists>r w'. addString rt empty_world (Str (js ''Racecar'')) = (Inr r, w')
     \<and> value' r = Some (js ''racecar'')
     \<and> prop_of is_palindrome r = Some True \<and> prop_of length' r = Some 7
     \<and> prop_of word_count r = Some 1 \<and> prop_of unique_characters r = Some 4"
  by (simp add: addString_def empty_world_def Let_def prop_of_def toLower_Racecar)
     (simp add: js_def is_palindrome_of_def word_count_of_def trim_def isWhiteSpace_def
        unique_characters_of_def isHighSurrogate_def isLowSurrogate_def)

text \<open>
  Claim C1. The derived properties of an inserted string are the reference ones, with
  one notion of character for all of them. On the value U+1F600, one character of two
  code units, the record gets length 2 and a frequency map of two keys, each counted
  once, but 1 for the number of unique characters, and it is no palindrome:
  \<open>value.length\<close> and \<open>split("")\<close> count and reverse code units, the iteration of
  \<open>new Set(value)\<close> counts code points.
\<close>

theorem addString_surrogate_pair:
  "\<exists>r w' m. addString rt empty_world (Str [0xD83D, 0xDE00]) = (Inr r, w')
     \<and> prop_of length' r = Some 2
     \<and> prop_of unique_characters r = Some 1
     \<and> prop_of is_palindrome r = Some False
     \<and> prop_of character_frequency_map r = Some m
     \<and> dom m = {0xD83D, 0xDE00} \<and> m 0xD83D = Some 1 \<and> m 0xDE00 = Some 1"
  by (simp add: addString_def empty_world_def Let_def prop_of_def toLower_def lowerUnit_def
      isUpper_def unique_characters_of_def isHighSurrogate_def isLowSurrogate_def
      is_palindrome_of_def character_frequency_map_of_def bump_def dom_def)
     auto

section \<open>Identity of a record\<close>






lemma lowerUnit_not_upper: "\<not> isUpper (lowerUnit c)"
  unfolding lowerUnit_def isUpper_def
  by (auto simp: word_le_nat_alt unat_word_ariths unat_arith_simps)

lemma lowerUnit_idem: "lowerUnit (lowerUnit c) = lowerUnit c"
  using lowerUnit_not_upper [of c] by (simp add: lowerUnit_def [of "lowerUnit c"])

lemma toLower_idem: "toLower (toLower s) = toLower s"
  by (simp add: toLower_def lowerUnit_idem)





section \<open>Duplicates\<close>




section \<open>The structured filter\<close>


lemma apply_filter_keep_opt: "apply_filter p keep xs = filter (keep_opt p keep) xs"
  by (cases p) (auto simp: apply_filter_def keep_opt_def intro: filter_cong)

lemma getAll_valid:
  assumes "valid raw"
  shows "\<exists>l. getAllStringsWithFiltering w raw = Inr l \<and> data l = filter (matches raw) (strings w)
     \<and> count l = length (data l)"
proof -
  from assms obtain ip where ip: "parse_is_palindrome (raw_is_palindrome raw) = Inr ip"
    by (auto simp: valid_def split: sum.splits)
  from assms have n: "parseNumberParam (raw_min_length raw) \<noteq> NumNull"
    "parseNumberParam (raw_max_length raw) \<noteq> NumNull"
    "parseNumberParam (raw_word_count raw) \<noteq> NumNull"
    and mm: "\<not> (case (parseNumberParam (raw_min_length raw), parseNumberParam (raw_max_length raw)) of
             (Num a, Num b) \<Rightarrow> a > b | _ \<Rightarrow> False)"
    by (simp_all add: valid_def)
  have m: "filter (matches raw) xs =
      apply_filter (parse_contains_character (raw_contains_character raw)) keep_contains_character
        (apply_filter (number_of (parseNumberParam (raw_word_count raw))) keep_word_count
          (apply_filter (number_of (parseNumberParam (raw_max_length raw))) keep_max_length
            (apply_filter (number_of (parseNumberParam (raw_min_length raw))) keep_min_length
              (apply_filter ip keep_is_palindrome xs))))" for xs
    unfolding apply_filter_keep_opt filter_filter
    by (rule filter_cong) (auto simp: matches_def ip)
  show ?thesis
    unfolding getAllStringsWithFiltering_def Let_def ip m
    using n mm by simp
qed

lemma parse_is_palindrome_Inl:
  "parse_is_palindrome p = Inl e \<Longrightarrow> e = HttpError 400 is_palindrome_message"
  by (auto simp: parse_is_palindrome_def Let_def split: option.splits qvalue.splits if_splits)

lemma getAll_invalid:
  assumes "\<not> valid raw"
  shows "\<exists>msg. \<forall>w. getAllStringsWithFiltering w raw = Inl (HttpError 400 msg)"
proof (cases "parse_is_palindrome (raw_is_palindrome raw)")
  case (Inl e)
  with parse_is_palindrome_Inl [OF Inl] show ?thesis
    by (simp add: getAllStringsWithFiltering_def)
next
  case (Inr ip)
  show ?thesis
  proof (cases "parseNumberParam (raw_min_length raw) = NumNull")
    case True
    with Inr show ?thesis by (simp add: getAllStringsWithFiltering_def)
  next
    case n1: False
    show ?thesis
    proof (cases "parseNumberParam (raw_max_length raw) = NumNull")
      case True
      with Inr n1 show ?thesis by (simp add: getAllStringsWithFiltering_def)
    next
      case n2: False
      show ?thesis
      proof (cases "parseNumberParam (raw_word_count raw) = NumNull")
        case True
        with Inr n1 n2 show ?thesis by (simp add: getAllStringsWithFiltering_def)
      next
        case n3: False
        with assms Inr n1 n2 have
          "(case (parseNumberParam (raw_min_length raw), parseNumberParam (raw_max_length raw)) of
             (Num a, Num b) \<Rightarrow> a > b | _ \<Rightarrow> False)"
          by (simp add: valid_def)
        with Inr n1 n2 n3 show ?thesis by (simp add: getAllStringsWithFiltering_def)
      qed
    qed
  qed
qed

lemma getAll_Inr:
  assumes "getAllStringsWithFiltering w raw = Inr l"
  shows "valid raw \<and> data l = filter (matches raw) (strings w) \<and> count l = length (data l)"
proof -
  have v: "valid raw"
    using assms getAll_invalid [of raw] by (cases "valid raw") auto
  from getAll_valid [OF v, of w] assms show ?thesis using v by auto
qed

lemma parseNumberParam_null:
  "empty_or_non_numeric v \<Longrightarrow> parseNumberParam (Some v) = NumNull"
  by (auto simp: empty_or_non_numeric_def parseNumberParam_def Let_def)

text \<open>
  Claim C6. When one of \<open>min_length\<close>, \<open>max_length\<close> and \<open>word_count\<close> is provided with a
  text that is empty or no number, or when \<open>min_length\<close> and \<open>max_length\<close> are numbers with
  \<open>min_length > max_length\<close>, the answer is a validation error, the same for every
  store: no record is looked at.
\<close>

theorem numeric_parameters_validation:
  assumes "(\<exists>v. (raw_min_length raw = Some v \<or> raw_max_length raw = Some v \<or> raw_word_count raw = Some v)
              \<and> empty_or_non_numeric v)
         \<or> (\<exists>a b. parseNumberParam (raw_min_length raw) = Num a
              \<and> parseNumberParam (raw_max_length raw) = Num b \<and> a > b)"
  shows "\<exists>e. ValidationError e \<and> (\<forall>w. getAllStringsWithFiltering w raw = Inl e)"
proof -
  from assms have "\<not> valid raw"
    by (auto simp: valid_def dest: parseNumberParam_null)
  from getAll_invalid [OF this] show ?thesis
    by (auto simp: ValidationError_def)
qed

lemma js_eq_Nil [simp]: "(js s = []) = (s = [])"
  by (simp add: js_def)

lemma Number_5: "Number (js ''5'') = Finite 5" by code_simp
lemma Number_3: "Number (js ''3'') = Finite 3" by code_simp
lemma trim_5: "trim (js ''5'') = js ''5''" by code_simp
lemma trim_3: "trim (js ''3'') = js ''3''" by code_simp

theorem numeric_parameters_validation_witness:
  "\<exists>e. ValidationError e
     \<and> (\<forall>w. getAllStringsWithFiltering w
            (no_filters \<lparr> raw_min_length := Some (QString (js ''5'')),
                          raw_max_length := Some (QString (js ''3'')) \<rparr>) = Inl e)"
proof -
  have "parseNumberParam (Some (QString (js ''5''))) = Num 5"
    "parseNumberParam (Some (QString (js ''3''))) = Num 3"
    by (simp_all add: parseNumberParam_def first_if_array_def String_of_opt_def
        trim_5 trim_3 Number_5 Number_3)
  then show ?thesis
    by (intro numeric_parameters_validation) (simp add: no_filters_def)
qed

lemma length_filter_mono:
  "(\<And>x. P x \<Longrightarrow> Q x) \<Longrightarrow> length (filter P xs) \<le> length (filter Q xs)"
  by (induction xs) auto

lemma extends_matches:
  assumes "extends q q'" and "valid q" and "matches q' str"
  shows "matches q str"
proof -
  have none: "parse_is_palindrome None = Inr None" "parseNumberParam None = NumUndefined"
    "parse_contains_character None = None"
    by (simp_all add: parse_is_palindrome_def parseNumberParam_def parse_contains_character_def)
  from assms(1) have
    "raw_is_palindrome q = None \<or> raw_is_palindrome q' = raw_is_palindrome q"
    "raw_min_length q = None \<or> raw_min_length q' = raw_min_length q"
    "raw_max_length q = None \<or> raw_max_length q' = raw_max_length q"
    "raw_word_count q = None \<or> raw_word_count q' = raw_word_count q"
    "raw_contains_character q = None \<or> raw_contains_character q' = raw_contains_character q"
    by (simp_all add: extends_def)
  with assms(3) show ?thesis
    unfolding matches_def
    by (auto simp: none keep_opt_def number_of_def)
qed

text \<open>
  Claim C9. When a query has the parameters of another and more, and both are valid, its
  records are among the records of the other and among the records of the store, and its
  count is not larger.
\<close>

theorem more_filters_fewer_results:
  assumes "extends q q'"
    and "getAllStringsWithFiltering w q = Inr l"
    and "getAllStringsWithFiltering w q' = Inr l'"
  shows "set (data l') \<subseteq> set (data l) \<and> count l' \<le> count l
       \<and> set (data l) \<subseteq> set (strings w) \<and> count l \<le> length (strings w)"
proof -
  from getAll_Inr [OF assms(2)] have l: "valid q" "data l = filter (matches q) (strings w)"
    "count l = length (data l)" by simp_all
  from getAll_Inr [OF assms(3)] have l': "data l' = filter (matches q') (strings w)"
    "count l' = length (data l')" by simp_all
  have imp: "matches q' str \<Longrightarrow> matches q str" for str
    by (rule extends_matches [OF assms(1) l(1)])
  have "length (filter (matches q') (strings w)) \<le> length (filter (matches q) (strings w))"
    by (rule length_filter_mono) (rule imp)
  with l l' imp show ?thesis by auto
qed

section \<open>The contains_character filter\<close>




lemma provided_substrings_None [simp]: "provided_substrings None = []"
  by (simp add: provided_substrings_def)



section \<open>Upper-case substrings\<close>

text \<open>\<open>includes\<close> tells the cases of a letter apart.\<close>

lemma contains_character_case_sensitive:
  "js_includes (js ''Zoo'') (js ''Z'') \<and> \<not> js_includes (js ''zoo'') (js ''Z'')"
  by (simp add: js_def)


lemma inserted_record_lower:
  assumes "inserted_record r"
  shows "\<exists>v. value' r = Some v \<and> toLower v = v \<and> (\<forall>c\<in>set v. \<not> isUpper c)"
proof -
  from assms obtain rt w s w' where "addString rt w (Str s) = (Inr r, w')"
    by (auto simp: inserted_record_def)
  then have "value' r = Some (toLower s)"
    by (auto simp: addString_def Let_def split: if_splits)
  moreover have "toLower (toLower s) = toLower s"
    by (rule toLower_idem)
  moreover have "\<forall>c\<in>set (toLower s). \<not> isUpper c"
    by (auto simp: toLower_def lowerUnit_not_upper)
  ultimately show ?thesis by blast
qed




section \<open>The natural-language query against the structured filter\<close>

lemma parse_true: "parse_is_palindrome (Some (QString (js ''true''))) = Inr (Some True)"
  by (simp add: parse_is_palindrome_def toLower_def js_def lowerUnit_def isUpper_def)

lemma Number_1: "Number (js ''1'') = Finite 1" by code_simp
lemma Number_11: "Number (js ''11'') = Finite 11" by code_simp
lemma trim_1: "trim (js ''1'') = js ''1''"
  by (simp add: trim_def js_def isWhiteSpace_def)
lemma trim_11: "trim (js ''11'') = js ''11''"
  by (simp add: trim_def js_def isWhiteSpace_def)
lemma trim_a: "trim (js ''a'') = js ''a''"
  by (simp add: trim_def js_def isWhiteSpace_def)
lemma trim_z: "trim (js ''z'') = js ''z''"
  by (simp add: trim_def js_def isWhiteSpace_def)

lemma parse_1: "parseNumberParam (Some (QString (js ''1''))) = Num 1"
  by (simp add: parseNumberParam_def first_if_array_def String_of_opt_def trim_1 Number_1)

lemma parse_11: "parseNumberParam (Some (QString (js ''11''))) = Num 11"
  by (simp add: parseNumberParam_def first_if_array_def String_of_opt_def trim_11 Number_11)

lemma parse_a: "parse_contains_character (Some (QString (js ''a''))) = Some [js ''a'']"
  by (simp add: parse_contains_character_def trim_a)

lemma parse_z: "parse_contains_character (Some (QString (js ''z''))) = Some [js ''z'']"
  by (simp add: parse_contains_character_def trim_z)

lemma parse_absent:
  "parse_is_palindrome None = Inr None" "parseNumberParam None = NumUndefined"
  "parse_contains_character None = None"
  by (simp_all add: parse_is_palindrome_def parseNumberParam_def parse_contains_character_def)

lemmas parse_canned = parse_true parse_1 parse_11 parse_a parse_z parse_absent


lemma keep_single_word:
  "keep_single_word_palindromic s = (keep_is_palindrome True s \<and> keep_word_count 1 s)"
  by (auto simp: keep_single_word_palindromic_def keep_is_palindrome_def keep_word_count_def
      Boolean_def split: option.splits)

lemma keep_longer: "keep_longer_than_10 s = keep_min_length 11 s"
proof -
  have "(10 < n) = ((11::rat) \<le> of_nat n)" for n :: nat
  proof -
    have "((11::rat) \<le> of_nat n) = (of_nat 11 \<le> (of_nat n :: rat))" by simp
    also have "\<dots> = (11 \<le> n)" by (simp only: of_nat_le_iff)
    finally show ?thesis by auto
  qed
  then show ?thesis by (simp add: keep_longer_than_10_def keep_min_length_def)
qed

lemma keep_first_vowel:
  "(case value' s of None \<Rightarrow> True | Some v \<Rightarrow> toLower v = v) \<Longrightarrow>
   keep_palindromic_first_vowel s
     = (keep_is_palindrome True s \<and> keep_contains_character [js ''a''] s)"
  by (auto simp: keep_palindromic_first_vowel_def keep_is_palindrome_def
      keep_contains_character_def Boolean_def split: option.splits)

lemma keep_z:
  "(case value' s of None \<Rightarrow> True | Some v \<Rightarrow> toLower v = v) \<Longrightarrow>
   keep_letter_z s = keep_contains_character [js ''z''] s"
  by (auto simp: keep_letter_z_def keep_contains_character_def split: option.splits)

lemma unat_of_char: "unat (of_char x :: 16 word) = of_char x"
proof -
  have "(of_char x :: 16 word) = of_nat (of_char x)"
    by (simp only: of_nat_of_char)
  then have "unat (of_char x :: 16 word) = (of_char x :: nat) mod 2 ^ LENGTH(16)"
    by (simp only: unat_of_nat)
  moreover have "(of_char x :: nat) < 2 ^ LENGTH(16)"
    by (rule less_trans [OF nat_of_char_less_256]) simp
  ultimately show ?thesis by (simp only: mod_less)
qed

lemma js_inject [simp]: "(js a = js b) = (a = b)"
proof -
  have "inj (of_char :: char \<Rightarrow> 16 word)"
  proof (rule injI)
    fix c d :: char
    assume "(of_char c :: 16 word) = of_char d"
    then have "unat (of_char c :: 16 word) = unat (of_char d :: 16 word)" by (rule arg_cong)
    then have "(of_char c :: nat) = of_char d" by (simp only: unat_of_char)
    then show "c = d" by (rule of_char_eqI)
  qed
  then show ?thesis by (simp add: js_def inj_map_eq_map)
qed

lemma canned_cases:
  assumes "(phrase, q) \<in> set canned"
  shows "(phrase = ''all single word palindromic strings''
            \<and> q = structured (Some ''true'') None (Some ''1'') None)
       \<or> (phrase = ''strings longer than 10 characters''
            \<and> q = structured None (Some ''11'') None None)
       \<or> (phrase = ''palindromic strings that contain the first vowel''
            \<and> q = structured (Some ''true'') None None (Some ''a''))
       \<or> (phrase = ''strings containing the letter z''
            \<and> q = structured None None None (Some ''z''))"
proof -
  from assms have "(phrase, q) = (''all single word palindromic strings'', structured (Some ''true'') None (Some ''1'') None)
    \<or> (phrase, q) = (''strings longer than 10 characters'', structured None (Some ''11'') None None)
    \<or> (phrase, q) = (''palindromic strings that contain the first vowel'', structured (Some ''true'') None None (Some ''a''))
    \<or> (phrase, q) = (''strings containing the letter z'', structured None None None (Some ''z''))"
    unfolding canned_def by (simp only: list.set insert_iff empty_iff simp_thms)
  then show ?thesis by (simp only: prod.inject)
qed


lemma structured_valid:
  "valid (structured (Some ''true'') None (Some ''1'') None)"
  "valid (structured None (Some ''11'') None None)"
  "valid (structured (Some ''true'') None None (Some ''a''))"
  "valid (structured None None None (Some ''z''))"
  by (simp_all add: structured_def valid_def parse_canned)

lemma structured_matches:
  "matches (structured (Some ''true'') None (Some ''1'') None) s
     = (keep_is_palindrome True s \<and> keep_word_count 1 s)"
  "matches (structured None (Some ''11'') None None) s = keep_min_length 11 s"
  "matches (structured (Some ''true'') None None (Some ''a'')) s
     = (keep_is_palindrome True s \<and> keep_contains_character [js ''a''] s)"
  "matches (structured None None None (Some ''z'')) s = keep_contains_character [js ''z''] s"
  by (simp_all add: structured_def matches_def parse_canned keep_opt_def number_of_def)

lemma nl_found:
  assumes "raw_of req = Some r" and "first_if_array r = Some (QString queryStr)"
  shows "toLower (trim queryStr) = js ''all single word palindromic strings'' \<Longrightarrow>
         \<exists>res. filterByNaturalLanguage w req = Inr res
           \<and> data res = filter keep_single_word_palindromic (strings w)
           \<and> count res = length (data res)"
    and "toLower (trim queryStr) = js ''strings longer than 10 characters'' \<Longrightarrow>
         \<exists>res. filterByNaturalLanguage w req = Inr res
           \<and> data res = filter keep_longer_than_10 (strings w)
           \<and> count res = length (data res)"
    and "toLower (trim queryStr) = js ''palindromic strings that contain the first vowel'' \<Longrightarrow>
         \<exists>res. filterByNaturalLanguage w req = Inr res
           \<and> data res = filter keep_palindromic_first_vowel (strings w)
           \<and> count res = length (data res)"
    and "toLower (trim queryStr) = js ''strings containing the letter z'' \<Longrightarrow>
         \<exists>res. filterByNaturalLanguage w req = Inr res
           \<and> data res = filter keep_letter_z (strings w)
           \<and> count res = length (data res)"
  by (simp_all add: filterByNaturalLanguage_def assms Let_def)

text \<open>
  Claim C3. Over a store whose values are in lower case (the data model of the
  specification; every record that \<open>addString\<close> creates has such a value), a request whose
  trimmed and lower-cased query is a canned phrase gets the records, and the count, that
  the structured filter gives for the query of that phrase in the table.
\<close>

theorem natural_language_as_structured:
  assumes "lower_case_values w"
    and "(phrase, q) \<in> set canned"
    and "raw_of req = Some r"
    and "first_if_array r = Some (QString queryStr)"
    and "toLower (trim queryStr) = js phrase"
  shows "\<exists>res l. filterByNaturalLanguage w req = Inr res
           \<and> getAllStringsWithFiltering w q = Inr l
           \<and> data res = data l \<and> count res = count l"
proof -
  have lc: "case value' s of None \<Rightarrow> True | Some v \<Rightarrow> toLower v = v" if "s \<in> set (strings w)" for s
    using assms(1) that by (simp add: lower_case_values_def)
  have same: "\<exists>res l. filterByNaturalLanguage w req = Inr res
           \<and> getAllStringsWithFiltering w q = Inr l
           \<and> data res = data l \<and> count res = count l"
    if v: "valid q"
      and n: "\<exists>res. filterByNaturalLanguage w req = Inr res \<and> data res = filter keep (strings w)
            \<and> count res = length (data res)"
      and k: "\<And>s. s \<in> set (strings w) \<Longrightarrow> keep s = matches q s" for keep
  proof -
    from getAll_valid [OF v, of w] obtain l where
      l: "getAllStringsWithFiltering w q = Inr l" "data l = filter (matches q) (strings w)"
         "count l = length (data l)" by blast
    from n obtain res where res: "filterByNaturalLanguage w req = Inr res"
      "data res = filter keep (strings w)" "count res = length (data res)" by blast
    have "filter keep (strings w) = filter (matches q) (strings w)"
      by (rule filter_cong [OF refl]) (rule k)
    with l res show ?thesis by simp
  qed
  from canned_cases [OF assms(2)] show ?thesis
  proof (elim disjE conjE)
    assume p: "phrase = ''all single word palindromic strings''"
      and q: "q = structured (Some ''true'') None (Some ''1'') None"
    show ?thesis
      by (rule same [of keep_single_word_palindromic])
         (simp_all only: q structured_valid structured_matches keep_single_word
            nl_found(1) [OF assms(3,4) assms(5) [unfolded p]])
  next
    assume p: "phrase = ''strings longer than 10 characters''"
      and q: "q = structured None (Some ''11'') None None"
    show ?thesis
      by (rule same [of keep_longer_than_10])
         (simp_all only: q structured_valid structured_matches keep_longer
            nl_found(2) [OF assms(3,4) assms(5) [unfolded p]])
  next
    assume p: "phrase = ''palindromic strings that contain the first vowel''"
      and q: "q = structured (Some ''true'') None None (Some ''a'')"
    show ?thesis
      by (rule same [of keep_palindromic_first_vowel])
         (simp_all only: q structured_valid structured_matches keep_first_vowel [OF lc]
            nl_found(3) [OF assms(3,4) assms(5) [unfolded p]])
  next
    assume p: "phrase = ''strings containing the letter z''"
      and q: "q = structured None None None (Some ''z'')"
    show ?thesis
      by (rule same [of keep_letter_z])
         (simp_all only: q structured_valid structured_matches keep_z [OF lc]
            nl_found(4) [OF assms(3,4) assms(5) [unfolded p]])
  qed
qed

section \<open>The store of the scenarios\<close>

lemma addString_strings:
  "strings (snd (addString rt w b)) = strings w
   \<or> (\<exists>r. inserted_record r \<and> strings (snd (addString rt w b)) = strings w @ [r])"
proof (cases "\<exists>r. fst (addString rt w b) = Inr r")
  case True
  then obtain r where r: "fst (addString rt w b) = Inr r" by blast
  then obtain s where b: "b = Str s"
    by (cases b) (simp_all add: addString_def)
  have "addString rt w (Str s) = (Inr r, snd (addString rt w (Str s)))"
    using r b by (metis prod.collapse)
  then have i: "inserted_record r" unfolding inserted_record_def by blast
  have "strings (snd (addString rt w b)) = strings w @ [r]"
    using r b by (auto simp: addString_def Let_def split: if_splits)
  with i show ?thesis by blast
next
  case False
  then have "snd (addString rt w b) = w"
    by (cases b) (auto simp: addString_def Let_def split: if_splits)
  then show ?thesis by simp
qed

lemma addString_inserted:
  "\<forall>r\<in>set (strings w). inserted_record r \<Longrightarrow>
   \<forall>r\<in>set (strings (snd (addString rt w b))). inserted_record r"
  using addString_strings [of rt w b] by auto

lemma inserted_lower_case_values:
  "\<forall>r\<in>set (strings w). inserted_record r \<Longrightarrow> lower_case_values w"
  unfolding lower_case_values_def using inserted_record_lower by fastforce

text \<open>
  The operations keep the values in lower case: \<open>addString\<close> appends a record with a
  lower-cased value or leaves the store, \<open>deleteString\<close> takes one record away or leaves
  the store.
\<close>

lemma lower_case_values_addString:
  assumes "lower_case_values w"
  shows "lower_case_values (snd (addString rt w b))"
proof -
  from addString_strings [of rt w b] show ?thesis
  proof
    assume "strings (snd (addString rt w b)) = strings w"
    with assms show ?thesis by (simp add: lower_case_values_def)
  next
    assume "\<exists>r. inserted_record r \<and> strings (snd (addString rt w b)) = strings w @ [r]"
    then obtain r where r: "inserted_record r" "strings (snd (addString rt w b)) = strings w @ [r]"
      by blast
    from inserted_record_lower [OF r(1)] obtain v where "value' r = Some v" "toLower v = v"
      by blast
    with assms r(2) show ?thesis by (auto simp: lower_case_values_def)
  qed
qed

lemma lower_case_values_deleteString:
  assumes "lower_case_values w"
  shows "lower_case_values (snd (deleteString rt w string decoded))"
proof -
  have "set (strings (snd (deleteString rt w string decoded))) \<subseteq> set (strings w)"
    by (auto simp: deleteString_def Let_def split: option.splits dest: in_set_takeD in_set_dropD)
  with assms show ?thesis by (auto simp: lower_case_values_def)
qed

lemma toLower_zebra: "toLower (js ''zebra'') = js ''zebra''"
  by (simp add: js_def toLower_def lowerUnit_def isUpper_def)

lemma toLower_apple: "toLower (js ''apple'') = js ''apple''"
  by (simp add: js_def toLower_def lowerUnit_def isUpper_def)

lemma zebra_apple_inserted: "\<forall>r\<in>set (strings zebra_apple). inserted_record r"
  unfolding zebra_apple_def
  by (intro addString_inserted) (simp add: empty_world_def)

lemma zebra_apple_strings:
  "\<exists>rz ra. strings zebra_apple = [rz, ra] \<and> value' rz = Some (js ''zebra'')
     \<and> value' ra = Some (js ''apple'')
     \<and> prop_of length' rz = Some 5 \<and> prop_of length' ra = Some 5"
  by (simp add: zebra_apple_def addString_def empty_world_def Let_def toLower_zebra toLower_apple
      prop_of_def) (simp add: js_def)

lemma includes_z:
  "js_includes (js ''zebra'') (js ''z'')" "\<not> js_includes (js ''apple'') (js ''z'')"
  "js_includes (js ''apple'') (js ''pp'')"
  by (simp_all add: js_def)

section \<open>Unrecognized phrases and the missing query\<close>

text \<open>
  Claim C8. A request without any query is answered with a validation error. A request
  whose query, trimmed and in lower case, is none of the canned phrases is answered with
  success: no data, count 0, the query as it was given, no parsed filter, and the message.
\<close>

theorem unrecognized_phrase_or_missing_query:
  "(query_query req = None \<and> query_q req = None \<and> params_query req = None
      \<and> params_string req = None
      \<longrightarrow> (\<exists>e. filterByNaturalLanguage w req = Inl e \<and> ValidationError e))
   \<and> (raw_of req = Some r \<and> first_if_array r = Some (QString queryStr)
        \<and> toLower (trim queryStr) \<notin> js ` set (map fst canned)
      \<longrightarrow> filterByNaturalLanguage w req =
            Inr \<lparr> data = [], count = 0, original = queryStr, parsed_filters = [],
                  message = Some ''Could not parse natural language query'' \<rparr>)"
proof (intro conjI impI)
  assume "query_query req = None \<and> query_q req = None \<and> params_query req = None
      \<and> params_string req = None"
  then have "raw_of req = None" by (simp add: raw_of_def coalesce_def)
  then show "\<exists>e. filterByNaturalLanguage w req = Inl e \<and> ValidationError e"
    by (simp add: filterByNaturalLanguage_def ValidationError_def)
next
  assume a: "raw_of req = Some r \<and> first_if_array r = Some (QString queryStr)
        \<and> toLower (trim queryStr) \<notin> js ` set (map fst canned)"
  then have "toLower (trim queryStr) \<noteq> js ''all single word palindromic strings''"
    "toLower (trim queryStr) \<noteq> js ''strings longer than 10 characters''"
    "toLower (trim queryStr) \<noteq> js ''palindromic strings that contain the first vowel''"
    "toLower (trim queryStr) \<noteq> js ''strings containing the letter z''"
    unfolding canned_def by (simp_all only: list.map fst_conv list.set image_insert insert_iff
        de_Morgan_disj simp_thms)
  with a show "filterByNaturalLanguage w req =
            Inr \<lparr> data = [], count = 0, original = queryStr, parsed_filters = [],
                  message = Some ''Could not parse natural language query'' \<rparr>"
    by (simp add: filterByNaturalLanguage_def Let_def)
qed

theorem unrecognized_phrase_or_missing_query_witness:
  "(\<exists>e. filterByNaturalLanguage zebra_apple
           \<lparr> query_query = None, query_q = None, params_query = None, params_string = None \<rparr>
         = Inl e \<and> ValidationError e)
   \<and> filterByNaturalLanguage zebra_apple (nl_query (js ''what is a palindrome'')) =
       Inr \<lparr> data = [], count = 0, original = js ''what is a palindrome'', parsed_filters = [],
             message = Some ''Could not parse natural language query'' \<rparr>"
proof -
  let ?q = "js ''what is a palindrome''"
  have n: "toLower (trim ?q) = ?q"
    by (simp add: js_def trim_def isWhiteSpace_def toLower_def lowerUnit_def isUpper_def)
  have m: "toLower (trim ?q) \<notin> js ` set (map fst canned)"
    unfolding n canned_def by (simp add: image_iff)
  have r: "raw_of (nl_query ?q) = Some (QString ?q)"
    by (simp add: raw_of_def nl_query_def coalesce_def)
  have f: "first_if_array (QString ?q) = Some (QString ?q)"
    by (simp add: first_if_array_def)
  from unrecognized_phrase_or_missing_query
    [of "\<lparr> query_query = None, query_q = None, params_query = None, params_string = None \<rparr>"
      zebra_apple]
  have 1: "\<exists>e. filterByNaturalLanguage zebra_apple
           \<lparr> query_query = None, query_q = None, params_query = None, params_string = None \<rparr>
         = Inl e \<and> ValidationError e" by simp
  from unrecognized_phrase_or_missing_query [of "nl_query ?q" zebra_apple "QString ?q" ?q] r f m
  have 2: "filterByNaturalLanguage zebra_apple (nl_query ?q) =
       Inr \<lparr> data = [], count = 0, original = ?q, parsed_filters = [],
             message = Some ''Could not parse natural language query'' \<rparr>"
    by (simp only: simp_thms)
  from 1 2 show ?thesis by (rule conjI)
qed

section \<open>Persistence\<close>

text \<open>
  Claim C4. An insertion and a deletion report success only after the write to
  \<open>strings.json\<close>, and a write that fails is reported as an error. For \<open>addString\<close> the
  promise of \<open>fs.writeFile\<close> is neither awaited nor handled: with a failing write the
  insertion of "abc" into the empty store is answered with the created record, the record
  is in the store in memory, and the file is as before.
\<close>

theorem addString_write_failure:
  "\<exists>r w'. addString (scenario_runtime \<lparr> writeFile_ok := False \<rparr>) empty_world (Str (js ''abc''))
            = (Inr r, w')
     \<and> strings w' = [r] \<and> strings_json w' = []"
  by (simp add: addString_def empty_world_def scenario_runtime_def Let_def)

text \<open>
  The answer of \<open>addString\<close> does not depend on the write. \<open>deleteString\<close> awaits the
  write: it reports no success when the write fails, and after a success the file holds
  the store.
\<close>

lemma addString_response_ignores_write:
  "fst (addString (rt \<lparr> writeFile_ok := ok \<rparr>) w b) = fst (addString rt w b)"
  by (cases b) (simp_all add: addString_def Let_def)

lemma deleteString_write_failure:
  assumes "\<not> writeFile_ok rt" and "deleteString rt w string decoded = (res, w')"
  shows "\<exists>e. res = Inl e"
  using assms
  by (auto simp: deleteString_def Let_def split: if_splits option.splits)

lemma deleteString_success_written:
  assumes "deleteString rt w string decoded = (Inr u, w')"
  shows "writeFile_ok rt \<and> strings_json w' = strings w'"
  using assms
  by (auto simp: deleteString_def Let_def split: if_splits option.splits)

section \<open>Scenarios of the structured filter and of the natural-language query\<close>

theorem natural_language_as_structured_witness:
  "\<exists>res l. filterByNaturalLanguage zebra_apple (nl_query (js ''Strings containing the letter Z ''))
               = Inr res
     \<and> getAllStringsWithFiltering zebra_apple (structured None None None (Some ''z'')) = Inr l
     \<and> data res = data l \<and> count res = count l
     \<and> map value' (data res) = [Some (js ''zebra'')]"
proof -
  let ?q = "js ''Strings containing the letter Z ''"
  have n: "toLower (trim ?q) = js ''strings containing the letter z''"
    by (simp add: js_def trim_def isWhiteSpace_def toLower_def lowerUnit_def isUpper_def)
  have r: "raw_of (nl_query ?q) = Some (QString ?q)"
    by (simp add: raw_of_def nl_query_def coalesce_def)
  have f: "first_if_array (QString ?q) = Some (QString ?q)"
    by (simp add: first_if_array_def)
  have c: "(''strings containing the letter z'', structured None None None (Some ''z'')) \<in> set canned"
    by (simp only: canned_def list.set insert_iff simp_thms)
  from natural_language_as_structured
    [OF inserted_lower_case_values [OF zebra_apple_inserted] c r f n]
  obtain res l where
    a: "filterByNaturalLanguage zebra_apple (nl_query ?q) = Inr res"
       "getAllStringsWithFiltering zebra_apple (structured None None None (Some ''z'')) = Inr l"
       "data res = data l" "count res = count l"
    by blast
  from nl_found(4) [OF r f n, of zebra_apple] a(1)
  have "data res = filter keep_letter_z (strings zebra_apple)" by simp
  moreover from zebra_apple_strings obtain rz ra where
    "strings zebra_apple = [rz, ra]" "value' rz = Some (js ''zebra'')"
    "value' ra = Some (js ''apple'')" by blast
  ultimately have "map value' (data res) = [Some (js ''zebra'')]"
    by (simp add: keep_letter_z_def toLower_zebra toLower_apple includes_z)
  with a show ?thesis
    by - (rule exI [of _ res], rule exI [of _ l], intro conjI, assumption+)
qed



lemma no_filters_valid: "valid no_filters"
  by (simp add: no_filters_def valid_def parse_absent)

lemma valid_contains_character:
  "valid (raw \<lparr> raw_contains_character := c \<rparr>) = valid raw"
  by (simp add: valid_def)


theorem more_filters_fewer_results_witness:
  "\<exists>l l'. getAllStringsWithFiltering zebra_apple no_filters = Inr l
     \<and> getAllStringsWithFiltering zebra_apple
          (no_filters \<lparr> raw_contains_character := Some (QString (js ''z'')) \<rparr>) = Inr l'
     \<and> set (data l') \<subseteq> set (data l) \<and> count l' \<le> count l
     \<and> set (data l) \<subseteq> set (strings zebra_apple) \<and> count l \<le> length (strings zebra_apple)"
proof -
  let ?q' = "no_filters \<lparr> raw_contains_character := Some (QString (js ''z'')) \<rparr>"
  from getAll_valid [OF no_filters_valid, of zebra_apple] obtain l where
    l: "getAllStringsWithFiltering zebra_apple no_filters = Inr l" by blast
  have "valid ?q'" by (simp only: valid_contains_character no_filters_valid)
  from getAll_valid [OF this, of zebra_apple] obtain l' where
    l': "getAllStringsWithFiltering zebra_apple ?q' = Inr l'" by blast
  have e: "extends no_filters ?q'"
    by (simp add: extends_def no_filters_def)
  from more_filters_fewer_results [OF e l l'] l l' show ?thesis
    by - (rule exI [of _ l], rule exI [of _ l'], simp only: simp_thms)
qed


end
